theory Spec2Isabelle
  imports Main "HOL-Library.FSet"
begin

section \<open>The IRC scraper (Scrapers/irc_scraper.py) as a state-passing model\<close>

text \<open>
  The class \<open>IRCCodeScraper\<close> keeps its state in fields of \<open>self\<close> and in files below
  \<open>output_dir\<close>. The model threads one record through every method: the fields that the
  methods read and write, the files they write, a counter of the HTTP requests issued so
  far and the chronological list of the effects performed.

  Everything outside the repository is a parameter, collected in the record \<open>env\<close>:
  \<^item> \<open>net n u\<close> is the outcome of the \<open>n\<close>-th call of \<open>session.get\<close> (counted over the whole
    run) when it asks for \<open>u\<close>: \<open>Some page\<close> for a parsed response, \<open>None\<close> when
    \<open>requests.RequestException\<close> is raised (time-out, connection error, status that
    \<open>raise_for_status\<close> rejects);
  \<^item> \<open>sigint n\<close> says whether the interrupt handler installed by \<open>main\<close> (it calls
    \<open>request_pause\<close>) runs while the \<open>n\<close>-th request is in flight;
  \<^item> \<open>extract_links\<close> stands for \<open>_extract_links_and_info\<close> and gives the link records found
    on a page;
  \<^item> \<open>parse_section\<close> stands for \<open>IRCSectionParser.parse_section_detailed\<close>, which is not
    part of the sources.
  Writing a file and calling the parser are taken to succeed.
\<close>

subsection \<open>Python values\<close>

datatype jv =
    JNone
  | JBool bool
  | JInt int
  | JStr string
  | JList "jv list"
  | JDict "(string \<times> jv) list"

type_synonym jdict = "(string \<times> jv) list"

text \<open>\<open>d[k] = v\<close> on an insertion-ordered dictionary.\<close>

fun dict_set :: "string \<Rightarrow> jv \<Rightarrow> jdict \<Rightarrow> jdict" where
  "dict_set k v [] = [(k, v)]"
| "dict_set k v ((k', v') # d) = (if k' = k then (k, v) # d else (k', v') # dict_set k v d)"

text \<open>\<open>d.get(k)\<close>: \<open>None\<close> of Python is \<open>JNone\<close>.\<close>

fun dict_get :: "string \<Rightarrow> jdict \<Rightarrow> jv" where
  "dict_get k [] = JNone"
| "dict_get k ((k', v') # d) = (if k' = k then v' else dict_get k d)"

fun dict_has :: "string \<Rightarrow> jdict \<Rightarrow> bool" where
  "dict_has k [] = False"
| "dict_has k ((k', v') # d) = (k' = k \<or> dict_has k d)"

text \<open>\<open>d.update(e)\<close>.\<close>

fun dict_update :: "jdict \<Rightarrow> jdict \<Rightarrow> jdict" where
  "dict_update d [] = d"
| "dict_update d ((k, v) # e) = dict_update (dict_set k v d) e"

text \<open>Truth value of a Python object in a condition.\<close>

fun truthy :: "jv \<Rightarrow> bool" where
  "truthy JNone = False"
| "truthy (JBool b) = b"
| "truthy (JInt i) = (i \<noteq> 0)"
| "truthy (JStr s) = (s \<noteq> [])"
| "truthy (JList xs) = (xs \<noteq> [])"
| "truthy (JDict d) = (d \<noteq> [])"

fun is_list :: "jv \<Rightarrow> bool" where
  "is_list (JList xs) = True"
| "is_list v = False"

fun is_dict :: "jv \<Rightarrow> bool" where
  "is_dict (JDict d) = True"
| "is_dict v = False"

text \<open>\<open>d[k].append(x)\<close>, used only where \<open>d[k]\<close> is a list.\<close>

fun list_append :: "jv \<Rightarrow> jv \<Rightarrow> jv" where
  "list_append (JList xs) x = JList (xs @ [x])"
| "list_append v x = v"

definition dict_append :: "string \<Rightarrow> jv \<Rightarrow> jdict \<Rightarrow> jdict" where
  "dict_append k x d = dict_set k (list_append (dict_get k d) x) d"

subsection \<open>Strings\<close>

fun startswith :: "string \<Rightarrow> string \<Rightarrow> bool" where
  "startswith s [] = True"
| "startswith [] (p # ps) = False"
| "startswith (c # cs) (p # ps) = (c = p \<and> startswith cs ps)"

text \<open>\<open>sub in s\<close>.\<close>

fun contains :: "string \<Rightarrow> string \<Rightarrow> bool" where
  "contains sub [] = (sub = [])"
| "contains sub (c # cs) = (startswith (c # cs) sub \<or> contains sub cs)"

text \<open>
  Characters are taken as ASCII code points; the character classes below are those of
  Python on that range.
\<close>

definition ord :: "char \<Rightarrow> nat" where
  "ord c = of_char c"

definition is_digit :: "char \<Rightarrow> bool" where
  "is_digit c = (48 \<le> ord c \<and> ord c \<le> 57)"

definition is_upper :: "char \<Rightarrow> bool" where
  "is_upper c = (65 \<le> ord c \<and> ord c \<le> 90)"

definition is_lower :: "char \<Rightarrow> bool" where
  "is_lower c = (97 \<le> ord c \<and> ord c \<le> 122)"

definition is_alpha :: "char \<Rightarrow> bool" where
  "is_alpha c = (is_upper c \<or> is_lower c)"

definition to_lower :: "char \<Rightarrow> char" where
  "to_lower c = (if is_upper c then char_of (ord c + 32) else c)"

definition to_upper :: "char \<Rightarrow> char" where
  "to_upper c = (if is_lower c then char_of (ord c - 32) else c)"

definition lower :: "string \<Rightarrow> string" where
  "lower s = map to_lower s"

definition upper :: "string \<Rightarrow> string" where
  "upper s = map to_upper s"

subsection \<open>State, environment, effects\<close>

record link_info =
  title :: string
  url :: string
  sections :: "(string \<times> string) option"

text \<open>The dictionary that \<open>_extract_links_and_info\<close> builds for a link.\<close>

definition info_dict :: "link_info \<Rightarrow> jdict" where
  "info_dict l =
     [(''title'', JStr (title l)),
      (''url'', JStr (url l)),
      (''sections'', (case sections l of
                        None \<Rightarrow> JNone
                      | Some (a, b) \<Rightarrow> JDict [(''start'', JStr a), (''end'', JStr b)]))]"

datatype event =
    Sleep nat
  | HttpGet string
  | SkipSection string
  | WriteSection string
  | SaveProgress "string fset"
  | WriteSummary string
  | WriteTree string
  | WriteFinal string

datatype progress_file = Absent | Unreadable | Saved "string fset"

record scraper =
  output_dir :: string
  completed_sections :: "string fset"
  should_pause :: bool
  delay :: nat
  progress_disk :: progress_file
  dirs :: "string set"
  files :: "string \<rightharpoonup> jdict"
  data :: jdict
  clock :: nat
  trace :: "event list"

record 'soup env =
  net :: "nat \<Rightarrow> string \<Rightarrow> 'soup option"
  sigint :: "nat \<Rightarrow> bool"
  extract_links :: "'soup \<Rightarrow> link_info list"
  parse_section :: "'soup \<Rightarrow> string \<Rightarrow> jdict"

definition emit :: "event \<Rightarrow> scraper \<Rightarrow> scraper" where
  "emit e s = s\<lparr>trace := trace s @ [e]\<rparr>"

text \<open>\<open>time.sleep(n)\<close>.\<close>

definition sleep :: "nat \<Rightarrow> scraper \<Rightarrow> scraper" where
  "sleep n s = emit (Sleep n) s"

text \<open>
  One \<open>session.get\<close> followed by \<open>raise_for_status\<close> and the construction of the soup.
  An interrupt that arrives meanwhile runs \<open>request_pause\<close>, which only sets the flag.
\<close>

definition http_get :: "'soup env \<Rightarrow> string \<Rightarrow> scraper \<Rightarrow> 'soup option \<times> scraper" where
  "http_get E u s =
     (net E (clock s) u,
      (emit (HttpGet u) s)\<lparr>clock := Suc (clock s),
                            should_pause := (should_pause s \<or> sigint E (clock s))\<rparr>)"

subsection \<open>Completion tracker\<close>

text \<open>\<open>_load_progress\<close>: a missing or unreadable file leaves the set as it is.\<close>

definition load_progress :: "scraper \<Rightarrow> scraper" where
  "load_progress s =
     (case progress_disk s of
        Saved xs \<Rightarrow> s\<lparr>completed_sections := xs\<rparr>
      | Absent \<Rightarrow> s
      | Unreadable \<Rightarrow> s)"

definition save_progress_state :: "scraper \<Rightarrow> scraper" where
  "save_progress_state s =
     (emit (SaveProgress (completed_sections s)) s)\<lparr>progress_disk := Saved (completed_sections s)\<rparr>"

definition check_if_completed :: "string \<Rightarrow> scraper \<Rightarrow> bool" where
  "check_if_completed section_url s = (section_url |\<in>| completed_sections s)"

definition mark_completed :: "string \<Rightarrow> scraper \<Rightarrow> scraper" where
  "mark_completed section_url s =
     save_progress_state (s\<lparr>completed_sections := finsert section_url (completed_sections s)\<rparr>)"

definition request_pause :: "scraper \<Rightarrow> scraper" where
  "request_pause s = s\<lparr>should_pause := True\<rparr>"

subsection \<open>Fetcher\<close>

text \<open>
  \<open>_make_request\<close>: the body of \<open>for attempt in range(retries)\<close>, over the attempts that
  remain. The request is preceded by the rate-limit sleep; a failed attempt that is not
  the last one is followed by a sleep of \<open>2 ** attempt\<close>.
\<close>

fun attempts :: "'soup env \<Rightarrow> string \<Rightarrow> nat \<Rightarrow> nat list \<Rightarrow> scraper \<Rightarrow> 'soup option \<times> scraper" where
  "attempts E u retries [] s = (None, s)"
| "attempts E u retries (attempt # rest) s =
     (case http_get E u (sleep (delay s) s) of
        (Some soup, s') \<Rightarrow> (Some soup, s')
      | (None, s') \<Rightarrow>
          if attempt + 1 = retries then (None, s')
          else attempts E u retries rest (sleep (2 ^ attempt) s'))"

definition make_request_n :: "'soup env \<Rightarrow> string \<Rightarrow> nat \<Rightarrow> scraper \<Rightarrow> 'soup option \<times> scraper" where
  "make_request_n E u retries s = attempts E u retries [0..<retries] s"

text \<open>Every caller uses the default \<open>retries = 3\<close>.\<close>

definition make_request :: "'soup env \<Rightarrow> string \<Rightarrow> scraper \<Rightarrow> 'soup option \<times> scraper" where
  "make_request E u s = make_request_n E u 3 s"

subsection \<open>Section writer\<close>

definition is_word :: "char \<Rightarrow> bool" where
  "is_word c = (is_alpha c \<or> is_digit c \<or> c = CHR ''_'')"

definition is_space :: "char \<Rightarrow> bool" where
  "is_space c = ((9 \<le> ord c \<and> ord c \<le> 13) \<or> (28 \<le> ord c \<and> ord c \<le> 32))"

text \<open>\<open>s.strip()\<close>.\<close>

definition strip :: "string \<Rightarrow> string" where
  "strip s = rev (dropWhile is_space (rev (dropWhile is_space s)))"

text \<open>\<open>re.sub(r'[^\w\s-]', '', name).strip().replace(' ', '_')[:50]\<close>.\<close>

definition sanitize :: "string \<Rightarrow> string" where
  "sanitize name =
     take 50 (map (\<lambda>c. if c = CHR '' '' then CHR ''_'' else c)
                (strip (filter (\<lambda>c. is_word c \<or> is_space c \<or> c = CHR ''-'') name)))"

text \<open>\<open>os.path.join(a, b)\<close> of \<open>posixpath\<close>.\<close>

definition path_join :: "string \<Rightarrow> string \<Rightarrow> string" where
  "path_join a b =
     (if startswith b ''/'' then b
      else if a = [] \<or> last a = CHR ''/'' then a @ b
      else a @ ''/'' @ b)"

definition chapter_dir_of :: "scraper \<Rightarrow> string \<Rightarrow> string \<Rightarrow> string" where
  "chapter_dir_of s subtitle_name chapter_name =
     path_join (path_join (output_dir s) (sanitize subtitle_name)) (sanitize chapter_name)"

definition section_path :: "scraper \<Rightarrow> string \<Rightarrow> string \<Rightarrow> string \<Rightarrow> string" where
  "section_path s subtitle_name chapter_name section_number =
     path_join (chapter_dir_of s subtitle_name chapter_name)
       (''section_'' @ section_number @ ''.json'')"

text \<open>\<open>os.makedirs(d, exist_ok=True)\<close>; a directory in \<open>dirs\<close> exists with its ancestors.\<close>

definition makedirs :: "string \<Rightarrow> scraper \<Rightarrow> scraper" where
  "makedirs d s = s\<lparr>dirs := insert d (dirs s)\<rparr>"

text \<open>\<open>open(path, 'w')\<close> and \<open>json.dump\<close>: whatever was at the path is replaced.\<close>

definition write_json :: "string \<Rightarrow> jdict \<Rightarrow> scraper \<Rightarrow> scraper" where
  "write_json path content s = s\<lparr>files := (files s)(path \<mapsto> content)\<rparr>"

definition save_section_file :: "jdict \<Rightarrow> string \<Rightarrow> string \<Rightarrow> string \<Rightarrow> scraper \<Rightarrow> scraper" where
  "save_section_file content subtitle_name chapter_name section_number s =
     (let chapter_dir = chapter_dir_of s subtitle_name chapter_name;
          filepath = section_path s subtitle_name chapter_name section_number
      in emit (WriteSection filepath) (write_json filepath content (makedirs chapter_dir s)))"

definition save_chapter_summary :: "jdict \<Rightarrow> string \<Rightarrow> string \<Rightarrow> scraper \<Rightarrow> scraper" where
  "save_chapter_summary chapter_data subtitle_name chapter_name s =
     (let chapter_dir = chapter_dir_of s subtitle_name chapter_name;
          summary_file = path_join chapter_dir ''_chapter_summary.json''
      in emit (WriteSummary summary_file) (write_json summary_file chapter_data (makedirs chapter_dir s)))"

subsection \<open>Section numbers\<close>

text \<open>
  A match of \<open>\d+L*(?:-\d+)?\<close> at the start of a string, where \<open>L\<close> is the class of
  letters given: the digits, the letters and the optional hyphenated digits are each
  taken greedily, and the classes are disjoint, so the first match is the only one.
\<close>

definition match_number :: "(char \<Rightarrow> bool) \<Rightarrow> string \<Rightarrow> string option" where
  "match_number letter s =
     (let ds = takeWhile is_digit s;
          r1 = dropWhile is_digit s;
          ls = takeWhile letter r1;
          r2 = dropWhile letter r1;
          hy = (case r2 of
                  [] \<Rightarrow> []
                | c # r3 \<Rightarrow>
                    if c = CHR ''-'' \<and> takeWhile is_digit r3 \<noteq> []
                    then c # takeWhile is_digit r3 else [])
      in if ds = [] then None else Some (ds @ ls @ hy))"

text \<open>\<open>re.search(r'section_(\d+[a-zA-Z]*(?:-\d+)?)', url, re.IGNORECASE)\<close>, group 1.\<close>

fun search_section_url :: "string \<Rightarrow> string option" where
  "search_section_url [] = None"
| "search_section_url (c # cs) =
     (if startswith (lower (c # cs)) ''section_''
      then (case match_number is_alpha (drop 8 (c # cs)) of
              Some n \<Rightarrow> Some n
            | None \<Rightarrow> search_section_url cs)
      else search_section_url cs)"

text \<open>\<open>re.search(r'Sec\.\s+(\d+[A-Z]*(?:-\d+)?)', title)\<close>, group 1.\<close>

fun search_sec_title :: "string \<Rightarrow> string option" where
  "search_sec_title [] = None"
| "search_sec_title (c # cs) =
     (if startswith (c # cs) ''Sec.'' \<and> takeWhile is_space (drop 4 (c # cs)) \<noteq> []
      then (case match_number is_upper (dropWhile is_space (drop 4 (c # cs))) of
              Some n \<Rightarrow> Some n
            | None \<Rightarrow> search_sec_title cs)
      else search_sec_title cs)"

definition section_number_of :: "string \<Rightarrow> link_info \<Rightarrow> string" where
  "section_number_of section_url section_info =
     (case search_section_url section_url of
        Some n \<Rightarrow> upper n
      | None \<Rightarrow>
          (case search_sec_title (title section_info) of
             Some n \<Rightarrow> n
           | None \<Rightarrow> ''unknown''))"

subsection \<open>Crawl orchestrator\<close>

definition skip_marker :: "string \<Rightarrow> jdict" where
  "skip_marker section_url = [(''skipped'', JBool True), (''url'', JStr section_url)]"

definition scrape_section ::
  "'soup env \<Rightarrow> string \<Rightarrow> link_info \<Rightarrow> string \<Rightarrow> string \<Rightarrow> scraper \<Rightarrow> jdict option \<times> scraper" where
  "scrape_section E section_url section_info subtitle_name chapter_name s =
     (if check_if_completed section_url s
      then (Some (skip_marker section_url), emit (SkipSection section_url) s)
      else
        (case make_request E section_url s of
           (None, s1) \<Rightarrow> (None, s1)
         | (Some soup, s1) \<Rightarrow>
             (let section_number = section_number_of section_url section_info;
                  content = dict_update (parse_section E soup section_number) (info_dict section_info);
                  s2 = (if subtitle_name \<noteq> [] \<and> chapter_name \<noteq> []
                        then save_section_file content subtitle_name chapter_name section_number s1
                        else s1)
              in (Some content, mark_completed section_url s2))))"

text \<open>\<open>if section_data and not section_data.get('skipped')\<close>.\<close>

definition keeps :: "jdict \<Rightarrow> bool" where
  "keeps section_data = (truthy (JDict section_data) \<and> \<not> truthy (dict_get ''skipped'' section_data))"

text \<open>
  The guarded \<open>part_data['sections'].append(section_data)\<close> of \<open>scrape_part\<close>, where the
  key holds a list from the start.
\<close>

definition record_section :: "jdict option \<Rightarrow> jdict \<Rightarrow> jdict" where
  "record_section r part_data =
     (case r of
        None \<Rightarrow> part_data
      | Some section_data \<Rightarrow>
          if keeps section_data then dict_append ''sections'' (JDict section_data) part_data
          else part_data)"

text \<open>A section link as \<open>scrape_part\<close> recognises it.\<close>

definition is_section_link :: "link_info \<Rightarrow> bool" where
  "is_section_link l = (contains ''Sec.'' (title l) \<or> contains ''section'' (lower (url l)))"

text \<open>The loop over the links of a subpart page, inside \<open>scrape_part\<close>.\<close>

fun subpart_loop ::
  "'soup env \<Rightarrow> string \<Rightarrow> string \<Rightarrow> link_info list \<Rightarrow> jdict \<Rightarrow> scraper \<Rightarrow> jdict \<times> scraper" where
  "subpart_loop E subtitle_name chapter_name [] part_data s = (part_data, s)"
| "subpart_loop E subtitle_name chapter_name (section_info # rest) part_data s =
     (if is_section_link section_info
      then
        (case scrape_section E (url section_info) section_info subtitle_name chapter_name s of
           (section_data, s1) \<Rightarrow>
             subpart_loop E subtitle_name chapter_name rest
               (record_section section_data part_data) s1)
      else subpart_loop E subtitle_name chapter_name rest part_data s)"

text \<open>The loop \<open>for link_info in links\<close> of \<open>scrape_part\<close>; \<open>break\<close> ends it.\<close>

fun part_loop ::
  "'soup env \<Rightarrow> string \<Rightarrow> string \<Rightarrow> link_info list \<Rightarrow> jdict \<Rightarrow> scraper \<Rightarrow> jdict \<times> scraper" where
  "part_loop E subtitle_name chapter_name [] part_data s = (part_data, s)"
| "part_loop E subtitle_name chapter_name (link_info # rest) part_data s =
     (if should_pause s then (part_data, s)
      else if contains ''Subpart'' (title link_info)
      then
        (case make_request E (url link_info) s of
           (None, s1) \<Rightarrow> part_loop E subtitle_name chapter_name rest part_data s1
         | (Some subpart_soup, s1) \<Rightarrow>
             (case subpart_loop E subtitle_name chapter_name (extract_links E subpart_soup) part_data s1 of
                (part_data', s2) \<Rightarrow>
                  part_loop E subtitle_name chapter_name rest
                    (dict_append ''subparts'' (JDict (info_dict link_info)) part_data') s2))
      else if is_section_link link_info
      then
        (case scrape_section E (url link_info) link_info subtitle_name chapter_name s of
           (section_data, s1) \<Rightarrow>
             part_loop E subtitle_name chapter_name rest
               (record_section section_data part_data) s1)
      else part_loop E subtitle_name chapter_name rest part_data s)"

definition scrape_part ::
  "'soup env \<Rightarrow> string \<Rightarrow> link_info \<Rightarrow> string \<Rightarrow> string \<Rightarrow> scraper \<Rightarrow> jdict \<times> scraper" where
  "scrape_part E part_url part_info subtitle_name chapter_name s =
     (if should_pause s then (info_dict part_info, s)
      else
        (case make_request E part_url s of
           (None, s1) \<Rightarrow> (info_dict part_info, s1)
         | (Some soup, s1) \<Rightarrow>
             part_loop E subtitle_name chapter_name (extract_links E soup)
               (dict_set ''subparts'' (JList [])
                  (dict_set ''sections'' (JList []) (info_dict part_info))) s1))"

text \<open>
  The guarded append of \<open>scrape_subchapter\<close> and \<open>scrape_chapter\<close>, which first makes the
  key a list when it is missing or holds something else.
\<close>

definition ensure_sections :: "jdict \<Rightarrow> jdict" where
  "ensure_sections d =
     (if \<not> dict_has ''sections'' d \<or> \<not> is_list (dict_get ''sections'' d)
      then dict_set ''sections'' (JList []) d else d)"

definition record_section_checked :: "jdict option \<Rightarrow> jdict \<Rightarrow> jdict" where
  "record_section_checked r d =
     (case r of
        None \<Rightarrow> d
      | Some section_data \<Rightarrow>
          if keeps section_data
          then dict_append ''sections'' (JDict section_data) (ensure_sections d)
          else d)"

fun subchapter_loop ::
  "'soup env \<Rightarrow> string \<Rightarrow> string \<Rightarrow> link_info list \<Rightarrow> jdict \<Rightarrow> scraper \<Rightarrow> jdict \<times> scraper" where
  "subchapter_loop E subtitle_name chapter_name [] subchapter_data s = (subchapter_data, s)"
| "subchapter_loop E subtitle_name chapter_name (part_info # rest) subchapter_data s =
     (if should_pause s then (subchapter_data, s)
      else if contains ''Part'' (title part_info)
      then
        (case scrape_part E (url part_info) part_info subtitle_name chapter_name s of
           (part_data, s1) \<Rightarrow>
             subchapter_loop E subtitle_name chapter_name rest
               (dict_append ''parts'' (JDict part_data) subchapter_data) s1)
      else if contains ''Sec.'' (title part_info)
      then
        (case scrape_section E (url part_info) part_info subtitle_name chapter_name s of
           (section_data, s1) \<Rightarrow>
             subchapter_loop E subtitle_name chapter_name rest
               (record_section_checked section_data subchapter_data) s1)
      else subchapter_loop E subtitle_name chapter_name rest subchapter_data s)"

definition scrape_subchapter ::
  "'soup env \<Rightarrow> string \<Rightarrow> link_info \<Rightarrow> string \<Rightarrow> string \<Rightarrow> scraper \<Rightarrow> jdict \<times> scraper" where
  "scrape_subchapter E subchapter_url subchapter_info subtitle_name chapter_name s =
     (if should_pause s then (info_dict subchapter_info, s)
      else
        (case make_request E subchapter_url s of
           (None, s1) \<Rightarrow> (info_dict subchapter_info, s1)
         | (Some soup, s1) \<Rightarrow>
             (let d0 = dict_set ''parts'' (JList []) (info_dict subchapter_info);
                  subchapter_data =
                    (if dict_has ''sections'' d0 \<and> is_dict (dict_get ''sections'' d0)
                     then dict_set ''sections'' (JList []) d0 else d0)
              in subchapter_loop E subtitle_name chapter_name (extract_links E soup)
                   subchapter_data s1)))"

definition add_part :: "jdict \<Rightarrow> jdict \<Rightarrow> jdict" where
  "add_part part_data chapter_data =
     dict_append ''parts'' (JDict part_data)
       (if \<not> dict_has ''parts'' chapter_data
        then dict_set ''parts'' (JList []) chapter_data else chapter_data)"

fun chapter_loop ::
  "'soup env \<Rightarrow> string \<Rightarrow> string \<Rightarrow> link_info list \<Rightarrow> jdict \<Rightarrow> scraper \<Rightarrow> jdict \<times> scraper" where
  "chapter_loop E subtitle_name chapter_name [] chapter_data s = (chapter_data, s)"
| "chapter_loop E subtitle_name chapter_name (subchapter_info # rest) chapter_data s =
     (if should_pause s then (chapter_data, s)
      else if contains ''Subchapter'' (title subchapter_info)
      then
        (case scrape_subchapter E (url subchapter_info) subchapter_info subtitle_name chapter_name s of
           (subchapter_data, s1) \<Rightarrow>
             chapter_loop E subtitle_name chapter_name rest
               (dict_append ''subchapters'' (JDict subchapter_data) chapter_data) s1)
      else if contains ''Part'' (title subchapter_info)
      then
        (case scrape_part E (url subchapter_info) subchapter_info subtitle_name chapter_name s of
           (part_data, s1) \<Rightarrow>
             chapter_loop E subtitle_name chapter_name rest (add_part part_data chapter_data) s1)
      else if contains ''Sec.'' (title subchapter_info)
      then
        (case scrape_section E (url subchapter_info) subchapter_info subtitle_name chapter_name s of
           (section_data, s1) \<Rightarrow>
             chapter_loop E subtitle_name chapter_name rest
               (record_section_checked section_data chapter_data) s1)
      else chapter_loop E subtitle_name chapter_name rest chapter_data s)"

definition scrape_chapter ::
  "'soup env \<Rightarrow> string \<Rightarrow> link_info \<Rightarrow> string \<Rightarrow> scraper \<Rightarrow> jdict \<times> scraper" where
  "scrape_chapter E chapter_url chapter_info subtitle_name s =
     (if should_pause s then (info_dict chapter_info, s)
      else
        (case make_request E chapter_url s of
           (None, s1) \<Rightarrow> (info_dict chapter_info, s1)
         | (Some soup, s1) \<Rightarrow>
             (let chapter_name = title chapter_info in
              case chapter_loop E subtitle_name chapter_name (extract_links E soup)
                     (dict_set ''subchapters'' (JList []) (info_dict chapter_info)) s1 of
                (chapter_data, s2) \<Rightarrow>
                  (chapter_data, save_chapter_summary chapter_data subtitle_name chapter_name s2))))"

fun subtitle_loop ::
  "'soup env \<Rightarrow> string \<Rightarrow> link_info list \<Rightarrow> jdict \<Rightarrow> scraper \<Rightarrow> jdict \<times> scraper" where
  "subtitle_loop E subtitle_name [] subtitle_data s = (subtitle_data, s)"
| "subtitle_loop E subtitle_name (chapter_info # rest) subtitle_data s =
     (if should_pause s then (subtitle_data, s)
      else if contains ''Chapter'' (title chapter_info)
      then
        (case scrape_chapter E (url chapter_info) chapter_info subtitle_name s of
           (chapter_data, s1) \<Rightarrow>
             subtitle_loop E subtitle_name rest
               (dict_append ''chapters'' (JDict chapter_data) subtitle_data) s1)
      else subtitle_loop E subtitle_name rest subtitle_data s)"

definition scrape_subtitle ::
  "'soup env \<Rightarrow> string \<Rightarrow> link_info \<Rightarrow> scraper \<Rightarrow> jdict \<times> scraper" where
  "scrape_subtitle E subtitle_url subtitle_info s =
     (if should_pause s then (info_dict subtitle_info, s)
      else
        (case make_request E subtitle_url s of
           (None, s1) \<Rightarrow> (info_dict subtitle_info, s1)
         | (Some soup, s1) \<Rightarrow>
             subtitle_loop E (title subtitle_info) (extract_links E soup)
               (dict_set ''chapters'' (JList []) (info_dict subtitle_info)) s1))"

text \<open>
  \<open>__init__\<close>: a fresh object over the files found in \<open>output_dir\<close>. The completed set
  starts empty and is then loaded from the progress file. The time stamp that goes into
  the metadata is left out.
\<close>

definition TOC_URL :: string where
  "TOC_URL = ''https://irc.bloombergtax.com/public/uscode/toc/irc''"

definition init :: "string \<Rightarrow> progress_file \<Rightarrow> (string \<rightharpoonup> jdict) \<Rightarrow> string set \<Rightarrow> scraper" where
  "init out disk fs ds =
     load_progress
       \<lparr>output_dir = out, completed_sections = {||}, should_pause = False, delay = 1,
        progress_disk = disk, dirs = insert out ds, files = fs,
        data = [(''metadata'', JDict [(''scrape_date'', JNone), (''source_url'', JStr TOC_URL)]),
                (''subtitles'', JList [])],
        clock = 0, trace = []\<rparr>"








subsection \<open>Which branch a loop takes\<close>

datatype level = Subtitle | Chapter | Subchapter | Part | Subpart | Section

text \<open>The first keyword of a list that occurs in a title.\<close>

fun first_match :: "(string \<times> level) list \<Rightarrow> string \<Rightarrow> level option" where
  "first_match [] t = None"
| "first_match ((kw, lv) # rest) t = (if contains kw t then Some lv else first_match rest t)"

text \<open>
  The tests of the \<open>if\<close>/\<open>elif\<close> chains, level by level: \<open>scrape_subtitle\<close> looks for
  chapters only; \<open>scrape_chapter\<close> for subchapters, then parts, then sections by title;
  \<open>scrape_subchapter\<close> for parts, then sections by title; \<open>scrape_part\<close> for subparts, then
  sections by title or URL.
\<close>

definition subtitle_child :: "link_info \<Rightarrow> level option" where
  "subtitle_child l = first_match [(''Chapter'', Chapter)] (title l)"

definition chapter_child :: "link_info \<Rightarrow> level option" where
  "chapter_child l =
     first_match [(''Subchapter'', Subchapter), (''Part'', Part), (''Sec.'', Section)] (title l)"

definition subchapter_child :: "link_info \<Rightarrow> level option" where
  "subchapter_child l = first_match [(''Part'', Part), (''Sec.'', Section)] (title l)"

definition part_child :: "link_info \<Rightarrow> level option" where
  "part_child l =
     (case first_match [(''Subpart'', Subpart)] (title l) of
        Some lv \<Rightarrow> Some lv
      | None \<Rightarrow> if is_section_link l then Some Section else None)"

text \<open>
  The classification as the specification words it: one scan, the same at every level,
  over the keywords in the order Subtitle, Chapter, Subchapter, Part, Subpart, and the
  leaf markers last.
\<close>

definition classify_spec :: "link_info \<Rightarrow> level option" where
  "classify_spec l =
     (case first_match [(''Subtitle'', Subtitle), (''Chapter'', Chapter),
                        (''Subchapter'', Subchapter), (''Part'', Part),
                        (''Subpart'', Subpart)] (title l) of
        Some lv \<Rightarrow> Some lv
      | None \<Rightarrow> if is_section_link l then Some Section else None)"


subsection \<open>Observations\<close>

text \<open>The URLs requested, in order, one per HTTP attempt.\<close>

fun fetched :: "event list \<Rightarrow> string list" where
  "fetched [] = []"
| "fetched (HttpGet u # es) = u # fetched es"
| "fetched (e # es) = fetched es"


text \<open>The list under a key, and the dictionaries in it.\<close>

definition list_at :: "string \<Rightarrow> jdict \<Rightarrow> jv list" where
  "list_at k d = (case dict_get k d of JList xs \<Rightarrow> xs | _ \<Rightarrow> [])"

fun dicts :: "jv list \<Rightarrow> jdict list" where
  "dicts [] = []"
| "dicts (JDict d # xs) = d # dicts xs"
| "dicts (x # xs) = dicts xs"

text \<open>A recorded section is done when it is a dictionary whose URL is in the set.\<close>

fun leaf_done :: "string fset \<Rightarrow> jv \<Rightarrow> bool" where
  "leaf_done C (JDict c) = (case dict_get ''url'' c of JStr u \<Rightarrow> u |\<in>| C | _ \<Rightarrow> False)"
| "leaf_done C v = False"

definition leaves_done :: "string fset \<Rightarrow> jdict \<Rightarrow> bool" where
  "leaves_done C d = list_all (leaf_done C) (list_at ''sections'' d)"

definition part_done :: "string fset \<Rightarrow> jdict \<Rightarrow> bool" where
  "part_done C d = leaves_done C d"

definition subchapter_done :: "string fset \<Rightarrow> jdict \<Rightarrow> bool" where
  "subchapter_done C d =
     (leaves_done C d \<and> list_all (part_done C) (dicts (list_at ''parts'' d)))"

definition chapter_done :: "string fset \<Rightarrow> jdict \<Rightarrow> bool" where
  "chapter_done C d =
     (leaves_done C d \<and> list_all (part_done C) (dicts (list_at ''parts'' d))
      \<and> list_all (subchapter_done C) (dicts (list_at ''subchapters'' d)))"

definition subtitle_done :: "string fset \<Rightarrow> jdict \<Rightarrow> bool" where
  "subtitle_done C d = list_all (chapter_done C) (dicts (list_at ''chapters'' d))"

text \<open>The events of one call of \<open>_make_request\<close> for \<open>u\<close>: sleeps and requests for \<open>u\<close>.\<close>

definition quiet :: "string \<Rightarrow> event \<Rightarrow> bool" where
  "quiet u e = (case e of Sleep n \<Rightarrow> True | HttpGet v \<Rightarrow> v = u | _ \<Rightarrow> False)"

text \<open>
  How the completed set and its file may differ between two states of one object: the
  set has only gained elements, and the file is either untouched, the set too, or it
  holds the set as it now is.
\<close>

definition grows :: "scraper \<Rightarrow> scraper \<Rightarrow> bool" where
  "grows s s' =
     (completed_sections s |\<subseteq>| completed_sections s'
      \<and> ((progress_disk s' = progress_disk s \<and> completed_sections s' = completed_sections s)
         \<or> progress_disk s' = Saved (completed_sections s')))"





subsection \<open>Small worlds for evaluation\<close>

text \<open>A page is given by the links on it; the extractor returns the section number.\<close>

type_synonym page = "link_info list"

definition link :: "string \<Rightarrow> string \<Rightarrow> link_info" where
  "link t u = \<lparr>title = t, url = u, sections = None\<rparr>"

definition world :: "(string \<Rightarrow> page option) \<Rightarrow> (nat \<Rightarrow> bool) \<Rightarrow> page env" where
  "world site sig =
     \<lparr>net = (\<lambda>n. site), sigint = sig, extract_links = (\<lambda>p. p),
      parse_section = (\<lambda>p n. [(''section_number'', JStr n)])\<rparr>"

definition offline :: "page env" where
  "offline = world (\<lambda>u. None) (\<lambda>n. False)"

definition fresh :: scraper where
  "fresh = init ''irc_data'' Absent Map.empty {}"

definition section_1 :: link_info where
  "section_1 = link ''Sec. 1. Tax imposed'' ''https://site/x/section_1''"

definition section_2 :: link_info where
  "section_2 = link ''Sec. 2. Definitions'' ''https://site/x/section_2''"

definition part_1 :: link_info where
  "part_1 = link ''Part I - Tax on individuals'' ''https://site/x/part-1''"

definition subpart_a :: link_info where
  "subpart_a = link ''Subpart A - Credits'' ''https://site/x/subpart-a''"

text \<open>A part whose page lists two sections.\<close>

definition flat_site :: "string \<Rightarrow> page option" where
  "flat_site u =
     (if u = ''https://site/x/part-1'' then Some [section_1, section_2]
      else if u = ''https://site/x/section_1'' \<or> u = ''https://site/x/section_2'' then Some []
      else None)"

text \<open>A part whose page lists one subpart, whose page lists the two sections.\<close>

definition nested_site :: "string \<Rightarrow> page option" where
  "nested_site u =
     (if u = ''https://site/x/part-1'' then Some [subpart_a]
      else if u = ''https://site/x/subpart-a'' then Some [section_1, section_2]
      else if u = ''https://site/x/section_1'' \<or> u = ''https://site/x/section_2'' then Some []
      else None)"


definition cross_reference :: link_info where
  "cross_reference = link ''Part IV - Sec. Cross-Reference Index'' ''https://site/x/part-4''"

definition interrupted :: "page env" where
  "interrupted = world nested_site (\<lambda>n. n = 1)"

text \<open>A site on which every URL answers with a page without links.\<close>

definition any_site :: "string \<Rightarrow> page option" where
  "any_site u = Some []"

section \<open>Properties\<close>

subsection \<open>Fetcher\<close>

lemma make_request_unfold:
  "make_request E u s =
     (case http_get E u (sleep (delay s) s) of
        (Some soup, s1) \<Rightarrow> (Some soup, s1)
      | (None, s1) \<Rightarrow>
          (case http_get E u (sleep (delay (sleep 1 s1)) (sleep 1 s1)) of
             (Some soup, s2) \<Rightarrow> (Some soup, s2)
           | (None, s2) \<Rightarrow>
               (case http_get E u (sleep (delay (sleep 2 s2)) (sleep 2 s2)) of
                  (Some soup, s3) \<Rightarrow> (Some soup, s3)
                | (None, s3) \<Rightarrow> (None, s3))))"
  by (simp add: make_request_def make_request_n_def upt_rec numeral_3_eq_3
        split: prod.splits option.splits)

text \<open>
  C3. With the default of three retries, a URL on which every attempt fails is requested
  exactly three times and the result is \<open>None\<close>; each request is preceded by the
  rate-limit sleep, and the sleeps between the attempts last 1 and then 2 seconds.
\<close>

theorem make_request_retry_bound:
  assumes "net E (clock s) u = None"
    and "net E (clock s + 1) u = None"
    and "net E (clock s + 2) u = None"
  shows "fst (make_request E u s) = None
    \<and> trace (snd (make_request E u s)) =
        trace s @ [Sleep (delay s), HttpGet u, Sleep 1,
                   Sleep (delay s), HttpGet u, Sleep 2,
                   Sleep (delay s), HttpGet u]
    \<and> clock (snd (make_request E u s)) = clock s + 3"
  using assms by (simp add: make_request_unfold http_get_def sleep_def emit_def)

theorem make_request_retry_bound_witness:
  "fst (make_request offline ''https://site/x/part-1'' fresh) = None
    \<and> trace (snd (make_request offline ''https://site/x/part-1'' fresh)) =
        [Sleep 1, HttpGet ''https://site/x/part-1'', Sleep 1,
         Sleep 1, HttpGet ''https://site/x/part-1'', Sleep 2,
         Sleep 1, HttpGet ''https://site/x/part-1'']
    \<and> clock (snd (make_request offline ''https://site/x/part-1'' fresh)) = 3"
  using make_request_retry_bound [of offline fresh "''https://site/x/part-1''"]
  by (simp add: offline_def world_def fresh_def init_def load_progress_def)

lemma make_request_frame:
  "completed_sections (snd (make_request E u s)) = completed_sections s"
  "progress_disk (snd (make_request E u s)) = progress_disk s"
  "files (snd (make_request E u s)) = files s"
  "dirs (snd (make_request E u s)) = dirs s"
  "output_dir (snd (make_request E u s)) = output_dir s"
  "delay (snd (make_request E u s)) = delay s"
  by (simp_all add: make_request_unfold http_get_def sleep_def emit_def split: option.splits)

lemma make_request_trace:
  "\<exists>evs. trace (snd (make_request E u s)) = trace s @ evs \<and> list_all (quiet u) evs"
  by (simp add: make_request_unfold http_get_def sleep_def emit_def quiet_def split: option.splits)

lemma fresh_fields:
  "completed_sections fresh = {||}" "progress_disk fresh = Absent" "\<not> should_pause fresh"
  "delay fresh = 1" "clock fresh = 0" "trace fresh = []" "output_dir fresh = ''irc_data''"
  by (simp_all add: fresh_def init_def load_progress_def)

lemma offline_fails: "fst (make_request offline u s) = None"
  by (simp add: make_request_unfold http_get_def sleep_def emit_def offline_def world_def)

subsection \<open>Leaf sections\<close>

text \<open>
  C10. When the fetch of a section that is not yet completed fails, \<open>scrape_section\<close>
  returns \<open>None\<close>; the completed set, the progress file, the section files and the
  directories are as before, the only effects being the sleeps and requests of the
  fetch, so the section is still not completed afterwards.
\<close>

theorem failed_leaf_fetch_changes_nothing:
  assumes "\<not> check_if_completed section_url s"
    and "fst (make_request E section_url s) = None"
  shows "fst (scrape_section E section_url section_info subtitle_name chapter_name s) = None
    \<and> completed_sections (snd (scrape_section E section_url section_info subtitle_name chapter_name s))
        = completed_sections s
    \<and> progress_disk (snd (scrape_section E section_url section_info subtitle_name chapter_name s))
        = progress_disk s
    \<and> files (snd (scrape_section E section_url section_info subtitle_name chapter_name s)) = files s
    \<and> dirs (snd (scrape_section E section_url section_info subtitle_name chapter_name s)) = dirs s
    \<and> \<not> check_if_completed section_url
          (snd (scrape_section E section_url section_info subtitle_name chapter_name s))
    \<and> (\<exists>evs. trace (snd (scrape_section E section_url section_info subtitle_name chapter_name s))
               = trace s @ evs \<and> list_all (quiet section_url) evs)"
proof -
  obtain r s1 where m: "make_request E section_url s = (r, s1)"
    by (cases "make_request E section_url s")
  with assms have r: "r = None" by simp
  have sc: "scrape_section E section_url section_info subtitle_name chapter_name s = (None, s1)"
    using assms(1) m r by (simp add: scrape_section_def)
  show ?thesis
    using make_request_frame[of E section_url s] make_request_trace[of E section_url s] assms(1) m
    by (simp add: sc check_if_completed_def)
qed

theorem failed_leaf_fetch_changes_nothing_witness:
  "\<not> check_if_completed ''https://site/x/section_1'' fresh
   \<and> fst (make_request offline ''https://site/x/section_1'' fresh) = None
   \<and> fst (scrape_section offline ''https://site/x/section_1'' section_1
            ''Subtitle A'' ''Chapter 1'' fresh) = None
   \<and> completed_sections (snd (scrape_section offline ''https://site/x/section_1'' section_1
        ''Subtitle A'' ''Chapter 1'' fresh)) = {||}
   \<and> progress_disk (snd (scrape_section offline ''https://site/x/section_1'' section_1
        ''Subtitle A'' ''Chapter 1'' fresh)) = Absent"
proof -
  have h1: "\<not> check_if_completed ''https://site/x/section_1'' fresh"
    by (simp add: check_if_completed_def fresh_fields)
  have h2: "fst (make_request offline ''https://site/x/section_1'' fresh) = None"
    by (rule offline_fails)
  show ?thesis
    using failed_leaf_fetch_changes_nothing
            [OF h1 h2, of section_1 "''Subtitle A''" "''Chapter 1''"] h1 h2
    by (simp add: fresh_fields)
qed

text \<open>
  C5. For a section that is not yet completed, whose page is fetched, with non-empty
  subtitle and chapter names: \<open>scrape_section\<close> first writes the section file and only
  then marks the URL and rewrites the progress file. In the state between the two the
  file holds the content and the URL is not in the completed set; the trace gains the
  write and then the save, in that order.
\<close>

theorem section_file_written_before_mark:
  assumes "\<not> check_if_completed section_url s"
    and "fst (make_request E section_url s) = Some soup"
    and "subtitle_name \<noteq> []" and "chapter_name \<noteq> []"
  shows "let s1 = snd (make_request E section_url s);
             n = section_number_of section_url section_info;
             content = dict_update (parse_section E soup n) (info_dict section_info);
             path = section_path s subtitle_name chapter_name n;
             written = save_section_file content subtitle_name chapter_name n s1
         in scrape_section E section_url section_info subtitle_name chapter_name s
              = (Some content, mark_completed section_url written)
          \<and> files written path = Some content
          \<and> section_url |\<notin>| completed_sections written
          \<and> progress_disk written = progress_disk s
          \<and> section_url |\<in>| completed_sections (mark_completed section_url written)
          \<and> files (mark_completed section_url written) path = Some content
          \<and> trace (mark_completed section_url written) =
              trace s1 @ [WriteSection path, SaveProgress (finsert section_url (completed_sections s))]"
proof -
  obtain r s1 where m: "make_request E section_url s = (r, s1)"
    by (cases "make_request E section_url s")
  with assms have r: "r = Some soup" by simp
  show ?thesis
  using assms(1,3,4) m r make_request_frame[of E section_url s]
  by (simp add: scrape_section_def check_if_completed_def Let_def save_section_file_def
      mark_completed_def save_progress_state_def emit_def write_json_def makedirs_def section_path_def chapter_dir_of_def)
qed

lemma flat_fetch:
  "u = ''https://site/x/section_2'' \<Longrightarrow> fst (make_request (world flat_site sg) u s) = Some []"
  by (simp add: make_request_unfold http_get_def sleep_def emit_def world_def flat_site_def)

theorem section_file_written_before_mark_witness:
  "\<not> check_if_completed ''https://site/x/section_2'' fresh
   \<and> fst (make_request (world flat_site (\<lambda>n. False)) ''https://site/x/section_2'' fresh) = Some []
   \<and> trace (snd (scrape_section (world flat_site (\<lambda>n. False)) ''https://site/x/section_2'' section_2
        ''Subtitle A'' ''Chapter 1'' fresh)) =
       [Sleep 1, HttpGet ''https://site/x/section_2'',
        WriteSection ''irc_data/Subtitle_A/Chapter_1/section_2.json'',
        SaveProgress {|''https://site/x/section_2''|}]"
proof -
  have h1: "\<not> check_if_completed ''https://site/x/section_2'' fresh"
    by (simp add: check_if_completed_def fresh_fields)
  have h2: "fst (make_request (world flat_site (\<lambda>n. False)) ''https://site/x/section_2'' fresh) = Some []"
    by (simp add: flat_fetch)
  have t: "trace (snd (make_request (world flat_site (\<lambda>n. False)) ''https://site/x/section_2'' fresh)) = [Sleep 1, HttpGet ''https://site/x/section_2'']"
    by (simp add: make_request_unfold http_get_def sleep_def emit_def world_def flat_site_def fresh_fields)
  have p: "section_path fresh ''Subtitle A'' ''Chapter 1'' (section_number_of ''https://site/x/section_2'' section_2) = ''irc_data/Subtitle_A/Chapter_1/section_2.json''"
    by code_simp
  show ?thesis
    using section_file_written_before_mark [OF h1 h2, of "''Subtitle A''" "''Chapter 1''" section_2] h1 h2
    by (simp add: Let_def t p fresh_fields)
qed

subsection \<open>Units above the leaves\<close>

text \<open>
  C6. At each of the four levels above the sections, when the flag is not set and the
  fetch of the unit's own page fails, the method returns the dictionary of the link it
  was given, as it is, in the state the failed fetch leaves: the trace gains only the
  sleeps and requests for the unit's own URL, so no child is processed and nothing is
  written.
\<close>

theorem failed_unit_fetch_returns_info:
  assumes "\<not> should_pause s" and "fst (make_request E u s) = None"
  shows "scrape_part E u info subtitle_name chapter_name s = (info_dict info, snd (make_request E u s))
    \<and> scrape_subchapter E u info subtitle_name chapter_name s = (info_dict info, snd (make_request E u s))
    \<and> scrape_chapter E u info subtitle_name s = (info_dict info, snd (make_request E u s))
    \<and> scrape_subtitle E u info s = (info_dict info, snd (make_request E u s))
    \<and> (\<exists>evs. trace (snd (make_request E u s)) = trace s @ evs \<and> list_all (quiet u) evs)
    \<and> files (snd (make_request E u s)) = files s
    \<and> completed_sections (snd (make_request E u s)) = completed_sections s"
proof -
  obtain r s1 where m: "make_request E u s = (r, s1)"
    by (cases "make_request E u s")
  with assms have r: "r = None" by simp
  show ?thesis
    using assms(1) m r make_request_trace[of E u s] make_request_frame[of E u s]
    by (simp add: scrape_part_def scrape_subchapter_def scrape_chapter_def scrape_subtitle_def)
qed

theorem failed_unit_fetch_returns_info_witness:
  "\<not> should_pause fresh
   \<and> fst (make_request offline ''https://site/x/part-1'' fresh) = None
   \<and> fst (scrape_part offline ''https://site/x/part-1'' part_1 ''Subtitle A'' ''Chapter 1'' fresh)
       = info_dict part_1
   \<and> fst (scrape_subchapter offline ''https://site/x/part-1'' part_1 ''Subtitle A'' ''Chapter 1'' fresh)
       = info_dict part_1
   \<and> fst (scrape_chapter offline ''https://site/x/part-1'' part_1 ''Subtitle A'' fresh)
       = info_dict part_1
   \<and> fst (scrape_subtitle offline ''https://site/x/part-1'' part_1 fresh) = info_dict part_1"
proof -
  have h1: "\<not> should_pause fresh" by (simp add: fresh_fields)
  have h2: "fst (make_request offline ''https://site/x/part-1'' fresh) = None"
    by (rule offline_fails)
  show ?thesis
    using failed_unit_fetch_returns_info [OF h1 h2, of part_1 "''Subtitle A''" "''Chapter 1''"] h1 h2
    by simp
qed






subsection \<open>The completed set over time\<close>

lemma grows_refl: "grows s s"
  by (simp add: grows_def)

lemma grows_trans: "grows s s1 \<Longrightarrow> grows s1 s2 \<Longrightarrow> grows s s2"
  by (auto simp: grows_def)

lemma grows_make_request: "grows s (snd (make_request E u s))"
  by (simp add: grows_def make_request_frame)

lemma grows_make_request': "make_request E u s = (r, s1) \<Longrightarrow> grows s s1"
  using grows_make_request[of s E u] by simp

lemma grows_scrape_section:
  "grows s (snd (scrape_section E u info sub chap s))"
proof (cases "check_if_completed u s")
  case True
  then show ?thesis by (simp add: scrape_section_def grows_def emit_def)
next
  case False
  obtain r s1 where m: "make_request E u s = (r, s1)" by (cases "make_request E u s")
  have f: "completed_sections s1 = completed_sections s" "progress_disk s1 = progress_disk s"
    using make_request_frame(1,2)[of E u s] m by simp_all
  show ?thesis using False m f
    by (cases r) (auto simp: scrape_section_def grows_def Let_def mark_completed_def
        save_progress_state_def save_section_file_def emit_def write_json_def makedirs_def)
qed

lemma grows_scrape_section': "scrape_section E u info sub chap s = (r, s1) \<Longrightarrow> grows s s1"
  using grows_scrape_section[of s E u info sub chap] by simp

lemma grows_subpart_loop: "grows s (snd (subpart_loop E sub chap ls d s))"
proof (induction ls arbitrary: d s)
  case Nil
  then show ?case by (simp add: grows_refl)
next
  case (Cons l ls)
  show ?case
  proof (cases "is_section_link l")
    case True
    obtain r s1 where m: "scrape_section E (url l) l sub chap s = (r, s1)"
      by (cases "scrape_section E (url l) l sub chap s")
    from grows_scrape_section'[OF m] Cons.IH[of s1 "record_section r d"] True m
    show ?thesis by (auto intro: grows_trans)
  next
    case False
    then show ?thesis using Cons.IH by simp
  qed
qed

lemma grows_part_loop: "grows s (snd (part_loop E sub chap ls d s))"
proof (induction ls arbitrary: d s)
  case Nil
  then show ?case by (simp add: grows_refl)
next
  case (Cons l ls)
  show ?case
  proof (cases "should_pause s")
    case True
    then show ?thesis by (simp add: grows_refl)
  next
    case np: False
    show ?thesis
    proof (cases "contains ''Subpart'' (title l)")
      case True
      obtain r s1 where m: "make_request E (url l) s = (r, s1)"
        by (cases "make_request E (url l) s")
      note g1 = grows_make_request'[OF m]
      show ?thesis
      proof (cases r)
        case None
        with np True m g1 Cons.IH[of s1 d] show ?thesis by (auto intro: grows_trans)
      next
        case (Some soup)
        obtain d2 s2 where sp: "subpart_loop E sub chap (extract_links E soup) d s1 = (d2, s2)"
          by (cases "subpart_loop E sub chap (extract_links E soup) d s1")
        have g2: "grows s1 s2" using grows_subpart_loop[of s1 E sub chap "extract_links E soup" d] sp by simp
        from np True m Some sp g1 g2
          Cons.IH[of s2 "dict_append ''subparts'' (JDict (info_dict l)) d2"]
        show ?thesis by (auto intro: grows_trans)
      qed
    next
      case ns: False
      show ?thesis
      proof (cases "is_section_link l")
        case True
        obtain r s1 where m: "scrape_section E (url l) l sub chap s = (r, s1)"
          by (cases "scrape_section E (url l) l sub chap s")
        from grows_scrape_section'[OF m] Cons.IH[of s1 "record_section r d"] True m np ns
        show ?thesis by (auto intro: grows_trans)
      next
        case False
        then show ?thesis using Cons.IH np ns by simp
      qed
    qed
  qed
qed

lemma grows_scrape_part: "grows s (snd (scrape_part E u info sub chap s))"
proof -
  obtain r s1 where m: "make_request E u s = (r, s1)" by (cases "make_request E u s")
  note g1 = grows_make_request'[OF m]
  show ?thesis using m g1 grows_part_loop[of s1 E sub chap]
    by (cases r) (auto simp: scrape_part_def grows_refl intro: grows_trans)
qed

lemma grows_subchapter_loop: "grows s (snd (subchapter_loop E sub chap ls d s))"
proof (induction ls arbitrary: d s)
  case Nil
  then show ?case by (simp add: grows_refl)
next
  case (Cons l ls)
  obtain pd s1 where p: "scrape_part E (url l) l sub chap s = (pd, s1)"
    by (cases "scrape_part E (url l) l sub chap s")
  obtain r s2 where m: "scrape_section E (url l) l sub chap s = (r, s2)"
    by (cases "scrape_section E (url l) l sub chap s")
  have g1: "grows s s1" using grows_scrape_part[of s E "url l" l sub chap] p by simp
  note g2 = grows_scrape_section'[OF m]
  show ?case
    using p m g1 g2 Cons.IH[of s1 "dict_append ''parts'' (JDict pd) d"]
      Cons.IH[of s2 "record_section_checked r d"] Cons.IH[of s d]
    by (auto simp: grows_refl intro: grows_trans)
qed

lemma grows_scrape_subchapter: "grows s (snd (scrape_subchapter E u info sub chap s))"
proof -
  obtain r s1 where m: "make_request E u s = (r, s1)" by (cases "make_request E u s")
  note g1 = grows_make_request'[OF m]
  show ?thesis using m g1 grows_subchapter_loop[of s1 E sub chap]
    by (cases r) (auto simp: scrape_subchapter_def Let_def grows_refl intro: grows_trans)
qed

lemma grows_chapter_loop: "grows s (snd (chapter_loop E sub chap ls d s))"
proof (induction ls arbitrary: d s)
  case Nil
  then show ?case by (simp add: grows_refl)
next
  case (Cons l ls)
  obtain sd s0 where q: "scrape_subchapter E (url l) l sub chap s = (sd, s0)"
    by (cases "scrape_subchapter E (url l) l sub chap s")
  obtain pd s1 where p: "scrape_part E (url l) l sub chap s = (pd, s1)"
    by (cases "scrape_part E (url l) l sub chap s")
  obtain r s2 where m: "scrape_section E (url l) l sub chap s = (r, s2)"
    by (cases "scrape_section E (url l) l sub chap s")
  have g0: "grows s s0" using grows_scrape_subchapter[of s E "url l" l sub chap] q by simp
  have g1: "grows s s1" using grows_scrape_part[of s E "url l" l sub chap] p by simp
  note g2 = grows_scrape_section'[OF m]
  show ?case
    using q p m g0 g1 g2 Cons.IH[of s0 "dict_append ''subchapters'' (JDict sd) d"]
      Cons.IH[of s1 "add_part pd d"]
      Cons.IH[of s2 "record_section_checked r d"] Cons.IH[of s d]
    by (auto simp: grows_refl intro: grows_trans)
qed

lemma grows_save_chapter_summary: "grows s (save_chapter_summary d sub chap s)"
  by (simp add: grows_def save_chapter_summary_def Let_def emit_def write_json_def makedirs_def)

lemma grows_scrape_chapter: "grows s (snd (scrape_chapter E u info sub s))"
proof -
  obtain r s1 where m: "make_request E u s = (r, s1)" by (cases "make_request E u s")
  note g1 = grows_make_request'[OF m]
  show ?thesis
  proof (cases r)
    case None
    then show ?thesis using m g1 by (simp add: scrape_chapter_def grows_refl)
  next
    case (Some soup)
    obtain d2 s2 where l: "chapter_loop E sub (title info) (extract_links E soup)
        (dict_set ''subchapters'' (JList []) (info_dict info)) s1 = (d2, s2)"
      by (cases "chapter_loop E sub (title info) (extract_links E soup)
        (dict_set ''subchapters'' (JList []) (info_dict info)) s1")
    have g2: "grows s1 s2"
      using grows_chapter_loop[of s1 E sub "title info" "extract_links E soup"
          "dict_set ''subchapters'' (JList []) (info_dict info)"] l by simp
    show ?thesis using m Some l g1 g2 grows_save_chapter_summary[of s2 d2 sub "title info"]
      by (auto simp: scrape_chapter_def Let_def grows_refl intro: grows_trans)
  qed
qed














subsection \<open>The tree and the completed set\<close>

lemma dict_get_dict_set: "dict_get k (dict_set k' v d) = (if k = k' then v else dict_get k d)"
  by (induction d) auto

lemma list_at_dict_set:
  "list_at k (dict_set k' v d) = (if k = k' then (case v of JList xs \<Rightarrow> xs | _ \<Rightarrow> []) else list_at k d)"
  by (simp add: list_at_def dict_get_dict_set)

lemma list_at_dict_append_other: "k \<noteq> k' \<Longrightarrow> list_at k (dict_append k' x d) = list_at k d"
  by (simp add: dict_append_def list_at_dict_set)

lemma list_at_dict_append_same:
  "list_at k (dict_append k x d) = (if list_at k d = [] \<and> \<not> is_list (dict_get k d) then [] else list_at k d @ [x])"
  by (cases "dict_get k d") (simp_all add: dict_append_def list_at_def dict_get_dict_set)

lemma dicts_append: "dicts (xs @ ys) = dicts xs @ dicts ys"
  by (induction xs rule: dicts.induct) simp_all

lemma list_at_info_dict: "list_at k (info_dict l) = []"
  by (cases "sections l") (auto simp: list_at_def info_dict_def)

lemma leaf_done_mono: "C |\<subseteq>| C' \<Longrightarrow> leaf_done C x \<Longrightarrow> leaf_done C' x"
  by (cases x) (auto split: jv.splits)

lemma leaves_done_mono: "C |\<subseteq>| C' \<Longrightarrow> leaves_done C d \<Longrightarrow> leaves_done C' d"
  by (auto simp: leaves_done_def list_all_iff intro: leaf_done_mono)

lemma part_done_mono: "C |\<subseteq>| C' \<Longrightarrow> part_done C d \<Longrightarrow> part_done C' d"
  by (simp add: part_done_def leaves_done_mono)

lemma subchapter_done_mono: "C |\<subseteq>| C' \<Longrightarrow> subchapter_done C d \<Longrightarrow> subchapter_done C' d"
  by (auto simp: subchapter_done_def list_all_iff intro: leaves_done_mono part_done_mono)

lemma chapter_done_mono: "C |\<subseteq>| C' \<Longrightarrow> chapter_done C d \<Longrightarrow> chapter_done C' d"
  by (auto simp: chapter_done_def list_all_iff intro: leaves_done_mono part_done_mono subchapter_done_mono)

lemma subtitle_done_mono: "C |\<subseteq>| C' \<Longrightarrow> subtitle_done C d \<Longrightarrow> subtitle_done C' d"
  by (auto simp: subtitle_done_def list_all_iff intro: chapter_done_mono)

lemma grows_subset: "grows s s' \<Longrightarrow> completed_sections s |\<subseteq>| completed_sections s'"
  by (simp add: grows_def)

lemma dict_get_url_update: "dict_get ''url'' (dict_update c (info_dict l)) = JStr (url l)"
  by (simp add: info_dict_def dict_get_dict_set)

lemma section_result_done:
  assumes "scrape_section E (url l) l sub chap s = (Some c, s')" and "keeps c"
  shows "leaf_done (completed_sections s') (JDict c)"
proof (cases "check_if_completed (url l) s")
  case True
  with assms show ?thesis by (auto simp: scrape_section_def keeps_def skip_marker_def)
next
  case False
  obtain r s1 where m: "make_request E (url l) s = (r, s1)" by (cases "make_request E (url l) s")
  show ?thesis using assms(1) False m
    by (cases r) (auto simp: scrape_section_def Let_def dict_get_url_update mark_completed_def
        save_progress_state_def emit_def)
qed

lemma leaves_done_record_section:
  assumes "scrape_section E (url l) l sub chap s = (r, s')"
    and "leaves_done (completed_sections s') d"
  shows "leaves_done (completed_sections s') (record_section r d)"
proof (cases r)
  case None
  then show ?thesis using assms by (simp add: record_section_def)
next
  case (Some c)
  show ?thesis
  proof (cases "keeps c")
    case True
    from section_result_done[OF assms(1)[unfolded Some] True] assms(2) Some True
    show ?thesis
      by (auto simp: record_section_def leaves_done_def list_at_dict_append_same)
  next
    case False
    then show ?thesis using assms Some by (simp add: record_section_def)
  qed
qed

lemma list_at_ensure_sections_other: "k \<noteq> ''sections'' \<Longrightarrow> list_at k (ensure_sections d) = list_at k d"
  by (simp add: ensure_sections_def list_at_dict_set)

lemma dict_get_absent: "\<not> dict_has k d \<Longrightarrow> dict_get k d = JNone"
  by (induction d) auto

lemma list_at_ensure_sections: "list_at ''sections'' (ensure_sections d) = list_at ''sections'' d"
  by (cases "dict_get ''sections'' d")
     (auto simp: ensure_sections_def list_at_def dict_get_dict_set dest: dict_get_absent)

lemma record_section_checked_other:
  "k \<noteq> ''sections'' \<Longrightarrow> list_at k (record_section_checked r d) = list_at k d"
  by (auto simp: record_section_checked_def list_at_dict_append_other list_at_ensure_sections_other
      split: option.splits)

lemma leaves_done_record_section_checked:
  assumes "scrape_section E (url l) l sub chap s = (r, s')"
    and "leaves_done (completed_sections s') d"
  shows "leaves_done (completed_sections s') (record_section_checked r d)"
proof (cases r)
  case None
  then show ?thesis using assms by (simp add: record_section_checked_def)
next
  case (Some c)
  show ?thesis
  proof (cases "keeps c")
    case True
    from section_result_done[OF assms(1)[unfolded Some] True] assms(2) Some True
    show ?thesis
      by (auto simp: record_section_checked_def leaves_done_def list_at_dict_append_same
          list_at_ensure_sections)
  next
    case False
    then show ?thesis using assms Some by (simp add: record_section_checked_def)
  qed
qed

lemma subpart_loop_done:
  "leaves_done (completed_sections s) d \<Longrightarrow>
   leaves_done (completed_sections (snd (subpart_loop E sub chap ls d s)))
     (fst (subpart_loop E sub chap ls d s))"
proof (induction ls arbitrary: d s)
  case Nil
  then show ?case by simp
next
  case (Cons l ls)
  obtain r s1 where m: "scrape_section E (url l) l sub chap s = (r, s1)"
    by (cases "scrape_section E (url l) l sub chap s")
  have d1: "leaves_done (completed_sections s1) d"
    using leaves_done_mono[OF grows_subset[OF grows_scrape_section'[OF m]] Cons.prems] .
  show ?case
    using m Cons.IH[OF leaves_done_record_section[OF m d1]] Cons.IH[OF Cons.prems]
    by simp
qed

lemma part_loop_done:
  "leaves_done (completed_sections s) d \<Longrightarrow>
   leaves_done (completed_sections (snd (part_loop E sub chap ls d s)))
     (fst (part_loop E sub chap ls d s))"
proof (induction ls arbitrary: d s)
  case Nil
  then show ?case by simp
next
  case (Cons l ls)
  obtain r s1 where m: "scrape_section E (url l) l sub chap s = (r, s1)"
    by (cases "scrape_section E (url l) l sub chap s")
  have d1: "leaves_done (completed_sections s1) d"
    using leaves_done_mono[OF grows_subset[OF grows_scrape_section'[OF m]] Cons.prems] .
  obtain q s2 where f: "make_request E (url l) s = (q, s2)"
    by (cases "make_request E (url l) s")
  have c2: "completed_sections s2 = completed_sections s"
    using make_request_frame(1)[of E "url l" s] f by simp
  have d2: "leaves_done (completed_sections s2) d" using Cons.prems c2 by simp
  have sub: "leaves_done (completed_sections (snd (part_loop E sub chap ls
               (dict_append ''subparts'' (JDict (info_dict l)) (fst (subpart_loop E sub chap pg d s2)))
               (snd (subpart_loop E sub chap pg d s2)))))
             (fst (part_loop E sub chap ls
               (dict_append ''subparts'' (JDict (info_dict l)) (fst (subpart_loop E sub chap pg d s2)))
               (snd (subpart_loop E sub chap pg d s2))))" for pg
    using subpart_loop_done[OF d2, of E sub chap pg]
    by (intro Cons.IH) (simp add: leaves_done_def list_at_dict_append_other)
  show ?case
  proof (cases "should_pause s")
    case True
    then show ?thesis using Cons.prems by simp
  next
    case np: False
    show ?thesis
    proof (cases "contains ''Subpart'' (title l)")
      case True
      show ?thesis
      proof (cases q)
        case None
        then show ?thesis using np True f Cons.IH[OF d2] by simp
      next
        case (Some pg)
        then show ?thesis using np True f sub[of "extract_links E pg"]
          by (cases "subpart_loop E sub chap (extract_links E pg) d s2") simp
      qed
    next
      case False
      then show ?thesis
        using np m Cons.IH[OF leaves_done_record_section[OF m d1]] Cons.IH[OF Cons.prems]
        by simp
    qed
  qed
qed

lemma scrape_part_done:
  "part_done (completed_sections (snd (scrape_part E u info sub chap s)))
     (fst (scrape_part E u info sub chap s))"
proof -
  obtain q s1 where f: "make_request E u s = (q, s1)" by (cases "make_request E u s")
  have init: "leaves_done C (dict_set ''subparts'' (JList []) (dict_set ''sections'' (JList []) (info_dict info)))" for C
    by (simp add: leaves_done_def list_at_dict_set)
  show ?thesis using f part_loop_done[OF init, where s = s1 and E = E and sub = sub and chap = chap]
    by (cases q) (auto simp: scrape_part_def part_done_def leaves_done_def list_at_info_dict)
qed

lemma subchapter_done_add_part:
  assumes "subchapter_done C d" and "part_done C pd"
  shows "subchapter_done C (dict_append ''parts'' (JDict pd) d)"
  using assms
  by (auto simp: subchapter_done_def leaves_done_def list_at_dict_append_other
      list_at_dict_append_same dicts_append)

lemma subchapter_done_record:
  assumes "scrape_section E (url l) l sub chap s = (r, s')"
    and "subchapter_done (completed_sections s') d"
  shows "subchapter_done (completed_sections s') (record_section_checked r d)"
  using assms leaves_done_record_section_checked[OF assms(1), of d]
  by (simp add: subchapter_done_def record_section_checked_other)

lemma subchapter_loop_done:
  "subchapter_done (completed_sections s) d \<Longrightarrow>
   subchapter_done (completed_sections (snd (subchapter_loop E sub chap ls d s)))
     (fst (subchapter_loop E sub chap ls d s))"
proof (induction ls arbitrary: d s)
  case Nil
  then show ?case by simp
next
  case (Cons l ls)
  obtain pd s1 where p: "scrape_part E (url l) l sub chap s = (pd, s1)"
    by (cases "scrape_part E (url l) l sub chap s")
  obtain r s2 where m: "scrape_section E (url l) l sub chap s = (r, s2)"
    by (cases "scrape_section E (url l) l sub chap s")
  have g1: "completed_sections s |\<subseteq>| completed_sections s1"
    using grows_subset[OF grows_scrape_part[of s E "url l" l sub chap]] p by simp
  have pd: "part_done (completed_sections s1) pd"
    using scrape_part_done[of E "url l" l sub chap s] p by simp
  have d1: "subchapter_done (completed_sections s1) (dict_append ''parts'' (JDict pd) d)"
    using subchapter_done_add_part[OF subchapter_done_mono[OF g1 Cons.prems] pd] .
  have d2: "subchapter_done (completed_sections s2) (record_section_checked r d)"
    using subchapter_done_record[OF m
        subchapter_done_mono[OF grows_subset[OF grows_scrape_section'[OF m]] Cons.prems]] .
  show ?case
    using p m Cons.prems Cons.IH[OF d1] Cons.IH[OF d2] Cons.IH[OF Cons.prems]
    by simp
qed

lemma scrape_subchapter_done:
  "subchapter_done (completed_sections (snd (scrape_subchapter E u info sub chap s)))
     (fst (scrape_subchapter E u info sub chap s))"
proof -
  obtain q s1 where f: "make_request E u s = (q, s1)" by (cases "make_request E u s")
  have fail: "subchapter_done C (info_dict info)" for C
    by (simp add: subchapter_done_def leaves_done_def list_at_info_dict)
  have start: "subchapter_done C
      (let d0 = dict_set ''parts'' (JList []) (info_dict info)
       in if dict_has ''sections'' d0 \<and> is_dict (dict_get ''sections'' d0)
          then dict_set ''sections'' (JList []) d0 else d0)" for C
    by (simp add: subchapter_done_def leaves_done_def list_at_dict_set list_at_info_dict Let_def)
  show ?thesis
    using f fail subchapter_loop_done[OF start, where s = s1 and E = E and sub = sub and chap = chap]
    by (cases q) (auto simp: scrape_subchapter_def Let_def)
qed

lemma chapter_done_add_part:
  assumes "chapter_done C d" and "part_done C pd"
  shows "chapter_done C (add_part pd d)"
  using assms
  by (auto simp: chapter_done_def leaves_done_def add_part_def list_at_dict_append_other
      list_at_dict_append_same dicts_append list_at_dict_set)

lemma chapter_done_add_subchapter:
  assumes "chapter_done C d" and "subchapter_done C sd"
  shows "chapter_done C (dict_append ''subchapters'' (JDict sd) d)"
  using assms
  by (auto simp: chapter_done_def leaves_done_def list_at_dict_append_other
      list_at_dict_append_same dicts_append)

lemma chapter_done_record:
  assumes "scrape_section E (url l) l sub chap s = (r, s')"
    and "chapter_done (completed_sections s') d"
  shows "chapter_done (completed_sections s') (record_section_checked r d)"
  using assms leaves_done_record_section_checked[OF assms(1), of d]
  by (simp add: chapter_done_def record_section_checked_other)

lemma chapter_loop_done:
  "chapter_done (completed_sections s) d \<Longrightarrow>
   chapter_done (completed_sections (snd (chapter_loop E sub chap ls d s)))
     (fst (chapter_loop E sub chap ls d s))"
proof (induction ls arbitrary: d s)
  case Nil
  then show ?case by simp
next
  case (Cons l ls)
  obtain sd s0 where q: "scrape_subchapter E (url l) l sub chap s = (sd, s0)"
    by (cases "scrape_subchapter E (url l) l sub chap s")
  obtain pd s1 where p: "scrape_part E (url l) l sub chap s = (pd, s1)"
    by (cases "scrape_part E (url l) l sub chap s")
  obtain r s2 where m: "scrape_section E (url l) l sub chap s = (r, s2)"
    by (cases "scrape_section E (url l) l sub chap s")
  have g0: "completed_sections s |\<subseteq>| completed_sections s0"
    using grows_subset[OF grows_scrape_subchapter[of s E "url l" l sub chap]] q by simp
  have g1: "completed_sections s |\<subseteq>| completed_sections s1"
    using grows_subset[OF grows_scrape_part[of s E "url l" l sub chap]] p by simp
  have sd: "subchapter_done (completed_sections s0) sd"
    using scrape_subchapter_done[of E "url l" l sub chap s] q by simp
  have pd: "part_done (completed_sections s1) pd"
    using scrape_part_done[of E "url l" l sub chap s] p by simp
  have d0: "chapter_done (completed_sections s0) (dict_append ''subchapters'' (JDict sd) d)"
    using chapter_done_add_subchapter[OF chapter_done_mono[OF g0 Cons.prems] sd] .
  have d1: "chapter_done (completed_sections s1) (add_part pd d)"
    using chapter_done_add_part[OF chapter_done_mono[OF g1 Cons.prems] pd] .
  have d2: "chapter_done (completed_sections s2) (record_section_checked r d)"
    using chapter_done_record[OF m
        chapter_done_mono[OF grows_subset[OF grows_scrape_section'[OF m]] Cons.prems]] .
  show ?case
    using q p m Cons.prems Cons.IH[OF d0] Cons.IH[OF d1] Cons.IH[OF d2] Cons.IH[OF Cons.prems]
    by simp
qed

lemma save_chapter_summary_completed:
  "completed_sections (save_chapter_summary d sub chap s) = completed_sections s"
  by (simp add: save_chapter_summary_def Let_def emit_def write_json_def makedirs_def)

lemma scrape_chapter_done:
  "chapter_done (completed_sections (snd (scrape_chapter E u info sub s)))
     (fst (scrape_chapter E u info sub s))"
proof -
  obtain q s1 where f: "make_request E u s = (q, s1)" by (cases "make_request E u s")
  have fail: "chapter_done C (info_dict info)" for C
    by (simp add: chapter_done_def leaves_done_def list_at_info_dict)
  have start: "chapter_done C (dict_set ''subchapters'' (JList []) (info_dict info))" for C
    by (simp add: chapter_done_def leaves_done_def list_at_dict_set list_at_info_dict)
  show ?thesis
  proof (cases q)
    case None
    then show ?thesis using f fail by (simp add: scrape_chapter_def)
  next
    case (Some soup)
    obtain d2 s2 where l: "chapter_loop E sub (title info) (extract_links E soup)
        (dict_set ''subchapters'' (JList []) (info_dict info)) s1 = (d2, s2)"
      by (cases "chapter_loop E sub (title info) (extract_links E soup)
        (dict_set ''subchapters'' (JList []) (info_dict info)) s1")
    have "chapter_done (completed_sections s2) d2"
      using chapter_loop_done[OF start, where s = s1 and E = E and sub = sub and chap = "title info"
          and ls = "extract_links E soup"] l
      by simp
    then show ?thesis using f Some l fail
      by (simp add: scrape_chapter_def Let_def save_chapter_summary_completed)
  qed
qed

lemma subtitle_done_add_chapter:
  assumes "subtitle_done C d" and "chapter_done C cd"
  shows "subtitle_done C (dict_append ''chapters'' (JDict cd) d)"
  using assms
  by (auto simp: subtitle_done_def list_at_dict_append_same dicts_append)

lemma subtitle_loop_done:
  "subtitle_done (completed_sections s) d \<Longrightarrow>
   subtitle_done (completed_sections (snd (subtitle_loop E sub ls d s)))
     (fst (subtitle_loop E sub ls d s))"
proof (induction ls arbitrary: d s)
  case Nil
  then show ?case by simp
next
  case (Cons l ls)
  obtain cd s1 where p: "scrape_chapter E (url l) l sub s = (cd, s1)"
    by (cases "scrape_chapter E (url l) l sub s")
  have g1: "completed_sections s |\<subseteq>| completed_sections s1"
    using grows_subset[OF grows_scrape_chapter[of s E "url l" l sub]] p by simp
  have cd: "chapter_done (completed_sections s1) cd"
    using scrape_chapter_done[of E "url l" l sub s] p by simp
  have d1: "subtitle_done (completed_sections s1) (dict_append ''chapters'' (JDict cd) d)"
    using subtitle_done_add_chapter[OF subtitle_done_mono[OF g1 Cons.prems] cd] .
  show ?case
    using p Cons.prems Cons.IH[OF d1] Cons.IH[OF Cons.prems]
    by simp
qed

lemma scrape_subtitle_done:
  "subtitle_done (completed_sections (snd (scrape_subtitle E u info s)))
     (fst (scrape_subtitle E u info s))"
proof -
  obtain q s1 where f: "make_request E u s = (q, s1)" by (cases "make_request E u s")
  have fail: "subtitle_done C (info_dict info)" for C
    by (simp add: subtitle_done_def list_at_info_dict)
  have start: "subtitle_done C (dict_set ''chapters'' (JList []) (info_dict info))" for C
    by (simp add: subtitle_done_def list_at_dict_set)
  show ?thesis
    using f fail subtitle_loop_done[OF start, where s = s1 and E = E and sub = "title info"]
    by (cases q) (auto simp: scrape_subtitle_def)
qed

lemma kept_result_completed:
  assumes "fst (scrape_section E u info sub chap s) = Some c" and "keeps c"
  shows "u |\<in>| completed_sections (snd (scrape_section E u info sub chap s))"
proof (cases "check_if_completed u s")
  case True
  with assms show ?thesis by (auto simp: scrape_section_def keeps_def skip_marker_def)
next
  case False
  obtain r s1 where m: "make_request E u s = (r, s1)" by (cases "make_request E u s")
  show ?thesis using assms(1) False m
    by (cases r) (auto simp: scrape_section_def Let_def mark_completed_def
        save_progress_state_def emit_def)
qed

text \<open>
  C7. Whatever a level returns, every entry of a \<open>sections\<close> list in it, at any depth, is
  a dictionary whose URL is in the completed set of the state the call ends in, and so in
  every later, larger set. The skip marker is never appended, by either form of the
  guarded append, and a result of \<open>scrape_section\<close> that passes the guard comes with its
  URL marked completed.
\<close>

theorem recorded_sections_are_completed:
  "part_done (completed_sections (snd (scrape_part E u info sub chap s)))
     (fst (scrape_part E u info sub chap s))
   \<and> subchapter_done (completed_sections (snd (scrape_subchapter E u info sub chap s)))
       (fst (scrape_subchapter E u info sub chap s))
   \<and> chapter_done (completed_sections (snd (scrape_chapter E u info sub s)))
       (fst (scrape_chapter E u info sub s))
   \<and> subtitle_done (completed_sections (snd (scrape_subtitle E u info s)))
       (fst (scrape_subtitle E u info s))
   \<and> (completed_sections (snd (scrape_part E u info sub chap s)) |\<subseteq>| C \<longrightarrow>
        part_done C (fst (scrape_part E u info sub chap s)))
   \<and> (completed_sections (snd (scrape_subchapter E u info sub chap s)) |\<subseteq>| C \<longrightarrow>
        subchapter_done C (fst (scrape_subchapter E u info sub chap s)))
   \<and> (completed_sections (snd (scrape_chapter E u info sub s)) |\<subseteq>| C \<longrightarrow>
        chapter_done C (fst (scrape_chapter E u info sub s)))
   \<and> (completed_sections (snd (scrape_subtitle E u info s)) |\<subseteq>| C \<longrightarrow>
        subtitle_done C (fst (scrape_subtitle E u info s)))
   \<and> record_section (Some (skip_marker v)) d = d
   \<and> record_section_checked (Some (skip_marker v)) d = d
   \<and> (fst (scrape_section E u info sub chap s) = Some c \<and> keeps c \<longrightarrow>
        u |\<in>| completed_sections (snd (scrape_section E u info sub chap s)))"
  using scrape_part_done[of E u info sub chap s] scrape_subchapter_done[of E u info sub chap s]
    scrape_chapter_done[of E u info sub s] scrape_subtitle_done[of E u info s]
    part_done_mono[of _ C] subchapter_done_mono[of _ C] chapter_done_mono[of _ C]
    subtitle_done_mono[of _ C] kept_result_completed[of E u info sub chap s c]
  by (auto simp: record_section_def record_section_checked_def keeps_def skip_marker_def)

theorem recorded_sections_are_completed_witness:
  "completed_sections (snd (scrape_part (world nested_site (\<lambda>n. False)) ''https://site/x/part-1''
      part_1 ''Subtitle A'' ''Chapter 1'' fresh))
     |\<subseteq>| {|''https://site/x/section_1'', ''https://site/x/section_2'', ''https://site/x/section_3''|}
   \<and> part_done {|''https://site/x/section_1'', ''https://site/x/section_2'', ''https://site/x/section_3''|}
        (fst (scrape_part (world nested_site (\<lambda>n. False)) ''https://site/x/part-1''
           part_1 ''Subtitle A'' ''Chapter 1'' fresh))
   \<and> length (list_at ''sections'' (fst (scrape_part (world nested_site (\<lambda>n. False))
        ''https://site/x/part-1'' part_1 ''Subtitle A'' ''Chapter 1'' fresh))) = 2
   \<and> fst (scrape_section (world flat_site (\<lambda>n. False)) ''https://site/x/section_2'' section_2
            ''Subtitle A'' ''Chapter 1'' fresh)
       = Some [(''section_number'', JStr ''2''), (''title'', JStr ''Sec. 2. Definitions''),
               (''url'', JStr ''https://site/x/section_2''), (''sections'', JNone)]
   \<and> keeps [(''section_number'', JStr ''2''), (''title'', JStr ''Sec. 2. Definitions''),
             (''url'', JStr ''https://site/x/section_2''), (''sections'', JNone)]
   \<and> ''https://site/x/section_2'' |\<in>| completed_sections
        (snd (scrape_section (world flat_site (\<lambda>n. False)) ''https://site/x/section_2'' section_2
           ''Subtitle A'' ''Chapter 1'' fresh))"
proof -
  have h1: "completed_sections (snd (scrape_part (world nested_site (\<lambda>n. False)) ''https://site/x/part-1''
      part_1 ''Subtitle A'' ''Chapter 1'' fresh))
     |\<subseteq>| {|''https://site/x/section_1'', ''https://site/x/section_2'', ''https://site/x/section_3''|}"
    by code_simp
  have h2: "length (list_at ''sections'' (fst (scrape_part (world nested_site (\<lambda>n. False))
        ''https://site/x/part-1'' part_1 ''Subtitle A'' ''Chapter 1'' fresh))) = 2"
    by code_simp
  have h3: "fst (scrape_section (world flat_site (\<lambda>n. False)) ''https://site/x/section_2'' section_2
            ''Subtitle A'' ''Chapter 1'' fresh)
       = Some [(''section_number'', JStr ''2''), (''title'', JStr ''Sec. 2. Definitions''),
               (''url'', JStr ''https://site/x/section_2''), (''sections'', JNone)]"
    by code_simp
  have h4: "keeps [(''section_number'', JStr ''2''), (''title'', JStr ''Sec. 2. Definitions''),
             (''url'', JStr ''https://site/x/section_2''), (''sections'', JNone)]"
    by code_simp
  note t1 = recorded_sections_are_completed
      [where E = "world nested_site (\<lambda>n. False)" and u = "''https://site/x/part-1''"
         and info = part_1 and sub = "''Subtitle A''" and chap = "''Chapter 1''" and s = fresh
         and C = "{|''https://site/x/section_1'', ''https://site/x/section_2'', ''https://site/x/section_3''|}"]
  note t2 = recorded_sections_are_completed
      [where E = "world flat_site (\<lambda>n. False)" and u = "''https://site/x/section_2''"
         and info = section_2 and sub = "''Subtitle A''" and chap = "''Chapter 1''" and s = fresh
         and c = "[(''section_number'', JStr ''2''), (''title'', JStr ''Sec. 2. Definitions''),
               (''url'', JStr ''https://site/x/section_2''), (''sections'', JNone)]"]
  have a: "part_done {|''https://site/x/section_1'', ''https://site/x/section_2'', ''https://site/x/section_3''|}
        (fst (scrape_part (world nested_site (\<lambda>n. False)) ''https://site/x/part-1''
           part_1 ''Subtitle A'' ''Chapter 1'' fresh))"
    using t1 h1 by blast
  have b: "''https://site/x/section_2'' |\<in>| completed_sections
        (snd (scrape_section (world flat_site (\<lambda>n. False)) ''https://site/x/section_2'' section_2
           ''Subtitle A'' ''Chapter 1'' fresh))"
    using t2 h3 h4 by blast
  show ?thesis using h1 h2 h3 h4 a b by blast
qed

subsection \<open>Classification of child links\<close>

text \<open>
  C4, as stated, fails. The link titled \<open>Part IV - Sec. Cross-Reference Index\<close> is a Part
  for a single scan over the keywords in the stated order, but \<open>scrape_part\<close> tests
  \<open>Subpart\<close> and then the leaf markers only: on a page of a part the link is scraped as a
  section, and its page is written as \<open>section_unknown.json\<close> and marked completed.
\<close>

theorem classification_counterexample:
  "classify_spec cross_reference = Some Part
   \<and> part_child cross_reference = Some Section
   \<and> trace (snd (part_loop (world any_site (\<lambda>n. False)) ''Subtitle A'' ''Chapter 1''
               [cross_reference] [] fresh))
       = [Sleep 1, HttpGet ''https://site/x/part-4'',
          WriteSection ''irc_data/Subtitle_A/Chapter_1/section_unknown.json'',
          SaveProgress {|''https://site/x/part-4''|}]"
  by code_simp

text \<open>
  C4, amended. Each level classifies a child link by its own chain, first match first:
  \<open>Chapter\<close> below a subtitle; \<open>Subchapter\<close>, \<open>Part\<close>, then \<open>Sec.\<close> in the title below a
  chapter; \<open>Part\<close>, then \<open>Sec.\<close> in the title below a subchapter; \<open>Subpart\<close>, then \<open>Sec.\<close>
  in the title or \<open>section\<close> in the lower-cased URL below a part. A link that matches
  none is passed over. So a title with both \<open>Part\<close> and \<open>Sec.\<close> is a Part below a
  subchapter and, unless it also has \<open>Subchapter\<close>, below a chapter; below a part it is
  a Section unless it has \<open>Subpart\<close>.
\<close>

theorem classification_by_level:
  "(\<not> should_pause s \<longrightarrow>
      subtitle_loop E sub (l # rest) d s =
        (case subtitle_child l of
           Some Chapter \<Rightarrow>
             (case scrape_chapter E (url l) l sub s of
                (chapter_data, s1) \<Rightarrow>
                  subtitle_loop E sub rest (dict_append ''chapters'' (JDict chapter_data) d) s1)
         | _ \<Rightarrow> subtitle_loop E sub rest d s)
    \<and> chapter_loop E sub chap (l # rest) d s =
        (case chapter_child l of
           Some Subchapter \<Rightarrow>
             (case scrape_subchapter E (url l) l sub chap s of
                (subchapter_data, s1) \<Rightarrow>
                  chapter_loop E sub chap rest
                    (dict_append ''subchapters'' (JDict subchapter_data) d) s1)
         | Some Part \<Rightarrow>
             (case scrape_part E (url l) l sub chap s of
                (part_data, s1) \<Rightarrow> chapter_loop E sub chap rest (add_part part_data d) s1)
         | Some Section \<Rightarrow>
             (case scrape_section E (url l) l sub chap s of
                (section_data, s1) \<Rightarrow>
                  chapter_loop E sub chap rest (record_section_checked section_data d) s1)
         | _ \<Rightarrow> chapter_loop E sub chap rest d s)
    \<and> subchapter_loop E sub chap (l # rest) d s =
        (case subchapter_child l of
           Some Part \<Rightarrow>
             (case scrape_part E (url l) l sub chap s of
                (part_data, s1) \<Rightarrow>
                  subchapter_loop E sub chap rest (dict_append ''parts'' (JDict part_data) d) s1)
         | Some Section \<Rightarrow>
             (case scrape_section E (url l) l sub chap s of
                (section_data, s1) \<Rightarrow>
                  subchapter_loop E sub chap rest (record_section_checked section_data d) s1)
         | _ \<Rightarrow> subchapter_loop E sub chap rest d s)
    \<and> part_loop E sub chap (l # rest) d s =
        (case part_child l of
           Some Subpart \<Rightarrow>
             (case make_request E (url l) s of
                (None, s1) \<Rightarrow> part_loop E sub chap rest d s1
              | (Some subpart_soup, s1) \<Rightarrow>
                  (case subpart_loop E sub chap (extract_links E subpart_soup) d s1 of
                     (d', s2) \<Rightarrow>
                       part_loop E sub chap rest
                         (dict_append ''subparts'' (JDict (info_dict l)) d') s2))
         | Some Section \<Rightarrow>
             (case scrape_section E (url l) l sub chap s of
                (section_data, s1) \<Rightarrow>
                  part_loop E sub chap rest (record_section section_data d) s1)
         | _ \<Rightarrow> part_loop E sub chap rest d s))
   \<and> (contains ''Part'' (title l) \<and> contains ''Sec.'' (title l) \<longrightarrow>
        subchapter_child l = Some Part
        \<and> (\<not> contains ''Subchapter'' (title l) \<longrightarrow> chapter_child l = Some Part)
        \<and> (\<not> contains ''Subpart'' (title l) \<longrightarrow> part_child l = Some Section))"
  by (simp add: subtitle_child_def chapter_child_def subchapter_child_def part_child_def
      is_section_link_def)

theorem classification_by_level_witness:
  "\<not> should_pause fresh
   \<and> contains ''Part'' (title cross_reference) \<and> contains ''Sec.'' (title cross_reference)
   \<and> \<not> contains ''Subchapter'' (title cross_reference)
   \<and> subchapter_child cross_reference = Some Part
   \<and> chapter_child cross_reference = Some Part
   \<and> chapter_loop offline ''Subtitle A'' ''Chapter 1'' [cross_reference] [] fresh =
       (case scrape_part offline (url cross_reference) cross_reference ''Subtitle A'' ''Chapter 1'' fresh of
          (part_data, s1) \<Rightarrow> chapter_loop offline ''Subtitle A'' ''Chapter 1'' [] (add_part part_data []) s1)"
proof -
  have h1: "\<not> should_pause fresh" by (simp add: fresh_fields)
  have h2: "contains ''Part'' (title cross_reference) \<and> contains ''Sec.'' (title cross_reference)"
    by code_simp
  have h3: "\<not> contains ''Subchapter'' (title cross_reference)" by code_simp
  note t = classification_by_level
      [where s = fresh and E = offline and sub = "''Subtitle A''" and chap = "''Chapter 1''"
         and l = cross_reference and rest = "[]" and d = "[]"]
  have c: "subchapter_child cross_reference = Some Part \<and> chapter_child cross_reference = Some Part"
    using t h2 h3 by blast
  have "chapter_loop offline ''Subtitle A'' ''Chapter 1'' [cross_reference] [] fresh =
        (case chapter_child cross_reference of
           Some Subchapter \<Rightarrow>
             (case scrape_subchapter offline (url cross_reference) cross_reference ''Subtitle A'' ''Chapter 1'' fresh of
                (subchapter_data, s1) \<Rightarrow>
                  chapter_loop offline ''Subtitle A'' ''Chapter 1'' []
                    (dict_append ''subchapters'' (JDict subchapter_data) []) s1)
         | Some Part \<Rightarrow>
             (case scrape_part offline (url cross_reference) cross_reference ''Subtitle A'' ''Chapter 1'' fresh of
                (part_data, s1) \<Rightarrow> chapter_loop offline ''Subtitle A'' ''Chapter 1'' [] (add_part part_data []) s1)
         | Some Section \<Rightarrow>
             (case scrape_section offline (url cross_reference) cross_reference ''Subtitle A'' ''Chapter 1'' fresh of
                (section_data, s1) \<Rightarrow>
                  chapter_loop offline ''Subtitle A'' ''Chapter 1'' [] (record_section_checked section_data []) s1)
         | _ \<Rightarrow> chapter_loop offline ''Subtitle A'' ''Chapter 1'' [] [] fresh)"
    using t h1 by blast
  then have e: "chapter_loop offline ''Subtitle A'' ''Chapter 1'' [cross_reference] [] fresh =
       (case scrape_part offline (url cross_reference) cross_reference ''Subtitle A'' ''Chapter 1'' fresh of
          (part_data, s1) \<Rightarrow> chapter_loop offline ''Subtitle A'' ''Chapter 1'' [] (add_part part_data []) s1)"
    by (simp only: c option.case level.case)
  show ?thesis using h1 h2 h3 c e by blast
qed

subsection \<open>Pausing\<close>

text \<open>
  C8, at a failing input. A part lists one subpart, whose page lists two sections, and
  the interrupt arrives while the page of the subpart is fetched. The flag is set when
  that fetch returns, yet both sections of the subpart are then fetched: the loop over
  the links of a subpart does not look at the flag. The loop over the links of the part
  does: with the two sections listed on the page of the part and the interrupt during
  the fetch of that page, nothing is requested after it.
\<close>

theorem pause_not_checked_in_subpart:
  "should_pause (snd (make_request interrupted ''https://site/x/subpart-a''
                   (snd (make_request interrupted ''https://site/x/part-1'' fresh))))
   \<and> fetched (trace (snd (scrape_part interrupted ''https://site/x/part-1'' part_1
                ''Subtitle A'' ''Chapter 1'' fresh)))
       = [''https://site/x/part-1'', ''https://site/x/subpart-a'',
          ''https://site/x/section_1'', ''https://site/x/section_2'']
   \<and> fetched (trace (snd (scrape_part (world flat_site (\<lambda>n. n = 0)) ''https://site/x/part-1''
                part_1 ''Subtitle A'' ''Chapter 1'' fresh)))
       = [''https://site/x/part-1'']"
  by code_simp

subsection \<open>Section writer\<close>
















end
